theory Spec2Isabelle
  imports Main "HOL-Library.Word" "HOL-Library.Finite_Map"
begin

section \<open>The deque of \<^verbatim>\<open>deque.h\<close>: a singly linked chain with a head and a tail pointer\<close>

text \<open>
  \<^verbatim>\<open>deque.h\<close> is a set of C macros over two structs: a node (\<^verbatim>\<open>data\<close>, \<^verbatim>\<open>next\<close>) and a
  deque (\<^verbatim>\<open>first\<close>, \<^verbatim>\<open>last\<close>, \<^verbatim>\<open>size\<close>). The macros mutate the deque struct and the nodes
  it points to, so the model is an explicit store: a finite map from addresses to nodes
  (the nodes that are currently allocated) together with the deque struct. A pointer is
  an optional address, \<open>None\<close> being \<^verbatim>\<open>NULL\<close>. The \<^verbatim>\<open>size\<close> field is a \<^verbatim>\<open>size_t\<close>: a machine
  word of some width \<open>'s\<close>, whose \<^verbatim>\<open>++\<close> and \<^verbatim>\<open>--\<close> wrap around.

  Every way a macro can leave the defined behaviour of C is a value of \<open>fault\<close>: a failed
  \<^verbatim>\<open>assert\<close>, a dereference of \<^verbatim>\<open>NULL\<close>, and an access through (or a \<^verbatim>\<open>free\<close> of) a pointer
  to no allocated node.
\<close>

subsection \<open>Data\<close>

type_synonym addr = nat

type_synonym ptr = "addr option"

record 'a node =
  data :: 'a
  "next" :: ptr

text \<open>The fields \<^verbatim>\<open>last\<close> and \<^verbatim>\<open>size\<close> are primed: the plain names are constants of HOL.\<close>

record (overloaded) 's deque =
  first :: ptr
  last' :: ptr
  size' :: "'s word"

type_synonym 'a heap = "(addr, 'a node) fmap"

record (overloaded) ('a, 's) state =
  heap :: "'a heap"
  deque :: "'s deque"

datatype fault = AssertionFailed | NullDereference | InvalidPointer

subsection \<open>Nodes\<close>

text \<open>
  \<^verbatim>\<open>NODE_ALLOC(T)\<close> is \<^verbatim>\<open>malloc(sizeof(NODE_TYPE(T)))\<close>. What the allocator answers is an input
  of the model: \<open>None\<close> when it returns \<^verbatim>\<open>NULL\<close>, otherwise the address of the new block and
  the indeterminate contents the block starts with.
\<close>

definition NODE_ALLOC :: "'a heap \<Rightarrow> (addr \<times> 'a node) option \<Rightarrow> 'a heap \<times> ptr" where
  "NODE_ALLOC h m = (case m of None \<Rightarrow> (h, None) | Some (a, junk) \<Rightarrow> (fmupd a junk h, Some a))"

text \<open>\<^verbatim>\<open>NODE_FREE(node)\<close> is \<^verbatim>\<open>free((node))\<close>: nothing happens on \<^verbatim>\<open>NULL\<close>.\<close>

definition NODE_FREE :: "'a heap \<Rightarrow> ptr \<Rightarrow> fault + 'a heap" where
  "NODE_FREE h p =
     (case p of
        None \<Rightarrow> Inr h
      | Some a \<Rightarrow> (case fmlookup h a of None \<Rightarrow> Inl InvalidPointer | Some n \<Rightarrow> Inr (fmdrop a h)))"

text \<open>\<^verbatim>\<open>NODE_NEXT(node)\<close> and \<^verbatim>\<open>NODE_DATA(node)\<close> read, and on the left of \<^verbatim>\<open>=\<close> write, a field.\<close>

definition NODE_NEXT :: "'a heap \<Rightarrow> ptr \<Rightarrow> fault + ptr" where
  "NODE_NEXT h p =
     (case p of
        None \<Rightarrow> Inl NullDereference
      | Some a \<Rightarrow> (case fmlookup h a of None \<Rightarrow> Inl InvalidPointer | Some n \<Rightarrow> Inr (next n)))"

definition NODE_DATA :: "'a heap \<Rightarrow> ptr \<Rightarrow> fault + 'a" where
  "NODE_DATA h p =
     (case p of
        None \<Rightarrow> Inl NullDereference
      | Some a \<Rightarrow> (case fmlookup h a of None \<Rightarrow> Inl InvalidPointer | Some n \<Rightarrow> Inr (data n)))"

definition NODE_NEXT_assign :: "'a heap \<Rightarrow> ptr \<Rightarrow> ptr \<Rightarrow> fault + 'a heap" where
  "NODE_NEXT_assign h p q =
     (case p of
        None \<Rightarrow> Inl NullDereference
      | Some a \<Rightarrow>
          (case fmlookup h a of
             None \<Rightarrow> Inl InvalidPointer
           | Some n \<Rightarrow> Inr (fmupd a (n\<lparr>next := q\<rparr>) h)))"

definition NODE_DATA_assign :: "'a heap \<Rightarrow> ptr \<Rightarrow> 'a \<Rightarrow> fault + 'a heap" where
  "NODE_DATA_assign h p v =
     (case p of
        None \<Rightarrow> Inl NullDereference
      | Some a \<Rightarrow>
          (case fmlookup h a of
             None \<Rightarrow> Inl InvalidPointer
           | Some n \<Rightarrow> Inr (fmupd a (n\<lparr>data := v\<rparr>) h)))"

subsection \<open>The deque macros\<close>

abbreviation DEQUE_FIRST :: "('a, 's::len) state \<Rightarrow> ptr" where
  "DEQUE_FIRST s \<equiv> first (deque s)"

abbreviation DEQUE_LAST :: "('a, 's::len) state \<Rightarrow> ptr" where
  "DEQUE_LAST s \<equiv> last' (deque s)"

abbreviation DEQUE_SIZE :: "('a, 's::len) state \<Rightarrow> 's word" where
  "DEQUE_SIZE s \<equiv> size' (deque s)"

definition DEQUE_HEAD :: "('a, 's::len) state \<Rightarrow> fault + 'a" where
  "DEQUE_HEAD s = NODE_DATA (heap s) (DEQUE_FIRST s)"

definition DEQUE_TAIL :: "('a, 's::len) state \<Rightarrow> fault + 'a" where
  "DEQUE_TAIL s = NODE_DATA (heap s) (DEQUE_LAST s)"

definition DEQUE_INIT :: "('a, 's::len) state \<Rightarrow> ('a, 's) state" where
  "DEQUE_INIT s = s\<lparr>deque := (deque s)\<lparr>first := None, last' := None, size' := 0\<rparr>\<rparr>"

definition DEQUE_DEFAULT :: "('s::len) deque" where
  "DEQUE_DEFAULT = \<lparr>first = None, last' = None, size' = 0\<rparr>"

text \<open>
  \<^verbatim>\<open>DEQUE_PUSH_NODE\<close>: the condition of the \<^verbatim>\<open>if\<close> stores the old \<^verbatim>\<open>first\<close> in the node's
  \<^verbatim>\<open>next\<close> and compares the stored value with \<^verbatim>\<open>NULL\<close>.
\<close>

definition DEQUE_PUSH_NODE :: "('a, 's::len) state \<Rightarrow> ptr \<Rightarrow> fault + ('a, 's) state" where
  "DEQUE_PUSH_NODE s node =
     (case NODE_NEXT_assign (heap s) node (DEQUE_FIRST s) of
        Inl e \<Rightarrow> Inl e
      | Inr h \<Rightarrow>
          (let d = deque s;
               d1 = (if first d = None then d\<lparr>last' := node\<rparr> else d);
               d2 = d1\<lparr>first := node\<rparr>
           in Inr \<lparr>heap = h, deque = d2\<lparr>size' := size' d2 + 1\<rparr>\<rparr>))"

text \<open>
  \<^verbatim>\<open>DEQUE_PUSH\<close> stores the value through the pointer that the allocator returned, without
  looking at it first.
\<close>

definition DEQUE_PUSH ::
  "('a, 's::len) state \<Rightarrow> (addr \<times> 'a node) option \<Rightarrow> 'a \<Rightarrow> fault + ('a, 's) state" where
  "DEQUE_PUSH s m v =
     (case NODE_ALLOC (heap s) m of
        (h, new_node) \<Rightarrow>
          (case NODE_DATA_assign h new_node v of
             Inl e \<Rightarrow> Inl e
           | Inr h' \<Rightarrow> DEQUE_PUSH_NODE (s\<lparr>heap := h'\<rparr>) new_node))"

text \<open>
  \<^verbatim>\<open>DEQUE_APPEND_NODE\<close>: the condition of the \<^verbatim>\<open>if\<close> stores \<^verbatim>\<open>NULL\<close> in the node's \<^verbatim>\<open>next\<close> and
  compares \<^verbatim>\<open>first\<close> with it; the \<^verbatim>\<open>else\<close> branch writes through \<^verbatim>\<open>last\<close>.
\<close>

definition DEQUE_APPEND_NODE :: "('a, 's::len) state \<Rightarrow> ptr \<Rightarrow> fault + ('a, 's) state" where
  "DEQUE_APPEND_NODE s node =
     (case NODE_NEXT_assign (heap s) node None of
        Inl e \<Rightarrow> Inl e
      | Inr h \<Rightarrow>
          (let d = deque s in
           if first d = None then
             (let d2 = d\<lparr>first := node, last' := node\<rparr>
              in Inr \<lparr>heap = h, deque = d2\<lparr>size' := size' d2 + 1\<rparr>\<rparr>)
           else
             (case NODE_NEXT_assign h (last' d) node of
                Inl e \<Rightarrow> Inl e
              | Inr h' \<Rightarrow>
                  (let d2 = d\<lparr>last' := node\<rparr>
                   in Inr \<lparr>heap = h', deque = d2\<lparr>size' := size' d2 + 1\<rparr>\<rparr>))))"

definition DEQUE_APPEND ::
  "('a, 's::len) state \<Rightarrow> (addr \<times> 'a node) option \<Rightarrow> 'a \<Rightarrow> fault + ('a, 's) state" where
  "DEQUE_APPEND s m v =
     (case NODE_ALLOC (heap s) m of
        (h, new_node) \<Rightarrow>
          (case NODE_DATA_assign h new_node v of
             Inl e \<Rightarrow> Inl e
           | Inr h' \<Rightarrow> DEQUE_APPEND_NODE (s\<lparr>heap := h'\<rparr>) new_node))"

text \<open>
  \<^verbatim>\<open>DEQUE_POP_NODE\<close> starts with \<^verbatim>\<open>assert(first != NULL)\<close>. The \<^verbatim>\<open>assert\<close> of \<^verbatim>\<open>assert.h\<close> expands
  to nothing when the translation unit defines \<^verbatim>\<open>NDEBUG\<close>, which is the flag \<open>ndebug\<close>.
\<close>

definition DEQUE_POP_NODE :: "bool \<Rightarrow> ('a, 's::len) state \<Rightarrow> fault + ('a, 's) state" where
  "DEQUE_POP_NODE ndebug s =
     (if \<not> ndebug \<and> DEQUE_FIRST s = None then Inl AssertionFailed
      else
        (case NODE_NEXT (heap s) (DEQUE_FIRST s) of
           Inl e \<Rightarrow> Inl e
         | Inr nx \<Rightarrow>
             (let d1 = (deque s)\<lparr>first := nx\<rparr>;
                  d2 = (if nx = None then d1\<lparr>last' := None\<rparr> else d1)
              in Inr (s\<lparr>deque := d2\<lparr>size' := size' d2 - 1\<rparr>\<rparr>))))"

text \<open>\<^verbatim>\<open>DEQUE_POP\<close> is a statement: it frees the old first node and yields no value.\<close>

definition DEQUE_POP :: "bool \<Rightarrow> ('a, 's::len) state \<Rightarrow> fault + ('a, 's) state" where
  "DEQUE_POP ndebug s =
     (let prev_first = DEQUE_FIRST s in
      case DEQUE_POP_NODE ndebug s of
        Inl e \<Rightarrow> Inl e
      | Inr s1 \<Rightarrow>
          (case NODE_FREE (heap s1) prev_first of
             Inl e \<Rightarrow> Inl e
           | Inr h \<Rightarrow> Inr (s1\<lparr>heap := h\<rparr>)))"

definition DEQUE_CLEAR :: "('a, 's::len) state \<Rightarrow> ('a, 's) state" where
  "DEQUE_CLEAR = DEQUE_INIT"

text \<open>
  \<^verbatim>\<open>DEQUE_FREE\<close>: the loop takes the first node off the chain and frees it until \<^verbatim>\<open>first\<close> is
  \<^verbatim>\<open>NULL\<close>. Every round frees one allocated node, or leaves defined behaviour, so the loop
  ends: the store is finite.
\<close>

function DEQUE_FREE_loop :: "('a, 's::len) state \<Rightarrow> fault + ('a, 's) state" where
  "DEQUE_FREE_loop s =
     (let prev_first = DEQUE_FIRST s in
      if prev_first = None then Inr s
      else
        (case NODE_NEXT (heap s) (DEQUE_FIRST s) of
           Inl e \<Rightarrow> Inl e
         | Inr nx \<Rightarrow>
             (case NODE_FREE (heap s) prev_first of
                Inl e \<Rightarrow> Inl e
              | Inr h \<Rightarrow> DEQUE_FREE_loop \<lparr>heap = h, deque = (deque s)\<lparr>first := nx\<rparr>\<rparr>)))"
  by pat_completeness auto
termination
proof (relation "measure (\<lambda>s. fcard (fmdom (heap s)))")
  fix s :: "('a, 's::len) state" and prev_first nx h
  assume p: "prev_first = DEQUE_FIRST s" "prev_first \<noteq> None"
    and f: "NODE_FREE (heap s) prev_first = Inr h"
  from p(2) obtain a where a: "prev_first = Some a"
    by blast
  from f have "a |\<in>| fmdom (heap s)" and "fmdom h = fmdom (heap s) |-| {|a|}"
    unfolding a NODE_FREE_def by (auto simp add: fmlookup_dom_iff split: option.splits)
  then have "fcard (fmdom h) < fcard (fmdom (heap s))"
    by (simp only: fcard_fminus1_less)
  then show "(\<lparr>heap = h, deque = (deque s)\<lparr>first := nx\<rparr>\<rparr>, s) \<in> measure (\<lambda>s. fcard (fmdom (heap s)))"
    by simp
qed simp

definition DEQUE_FREE :: "('a, 's::len) state \<Rightarrow> fault + ('a, 's) state" where
  "DEQUE_FREE s =
     (case DEQUE_FREE_loop s of
        Inl e \<Rightarrow> Inl e
      | Inr s1 \<Rightarrow> Inr (s1\<lparr>deque := (deque s1)\<lparr>last' := None, size' := 0\<rparr>\<rparr>))"

subsection \<open>How a caller takes elements out\<close>

text \<open>
  Since \<^verbatim>\<open>DEQUE_POP\<close> yields nothing, a caller that wants the element reads \<^verbatim>\<open>DEQUE_HEAD\<close> and
  then pops, as the comment on \<^verbatim>\<open>DEQUE_HEAD\<close> shows. \<open>take_front\<close> is that pair of statements and
  \<open>drain k\<close> repeats it \<open>k\<close> times, collecting what was read.
\<close>

definition and_then :: "fault + 'x \<Rightarrow> ('x \<Rightarrow> fault + 'y) \<Rightarrow> fault + 'y" where
  "and_then r f = (case r of Inl e \<Rightarrow> Inl e | Inr x \<Rightarrow> f x)"

definition take_front :: "bool \<Rightarrow> ('a, 's::len) state \<Rightarrow> fault + ('a \<times> ('a, 's) state)" where
  "take_front ndebug s =
     and_then (DEQUE_HEAD s) (\<lambda>v. and_then (DEQUE_POP ndebug s) (\<lambda>s'. Inr (v, s')))"

fun drain :: "bool \<Rightarrow> nat \<Rightarrow> ('a, 's::len) state \<Rightarrow> fault + ('a list \<times> ('a, 's) state)" where
  "drain ndebug 0 s = Inr ([], s)"
| "drain ndebug (Suc k) s =
     and_then (take_front ndebug s)
       (\<lambda>(v, s'). and_then (drain ndebug k s') (\<lambda>(vs, s''). Inr (v # vs, s'')))"

subsection \<open>The invariants of the deque\<close>

text \<open>The first invariant: the three fields agree on whether the deque is empty.\<close>

definition invariant1 :: "('s::len) deque \<Rightarrow> bool" where
  "invariant1 d \<longleftrightarrow>
     ((size' d = 0) = (first d = None)) \<and> ((first d = None) = (last' d = None))"

text \<open>
  \<open>chain h p as\<close>: following \<^verbatim>\<open>next\<close> from \<open>p\<close> visits the allocated nodes at the addresses
  \<open>as\<close>, in this order, and then reaches \<^verbatim>\<open>NULL\<close>.
\<close>

fun chain :: "'a heap \<Rightarrow> ptr \<Rightarrow> addr list \<Rightarrow> bool" where
  "chain h p [] = (p = None)"
| "chain h p (a # as) =
     (p = Some a \<and> (case fmlookup h a of None \<Rightarrow> False | Some n \<Rightarrow> chain h (next n) as))"

text \<open>\<open>walk h p k\<close> follows \<^verbatim>\<open>next\<close> from \<open>p\<close> for at most \<open>k\<close> nodes, up to \<^verbatim>\<open>NULL\<close>.\<close>

fun walk :: "'a heap \<Rightarrow> ptr \<Rightarrow> nat \<Rightarrow> addr list option" where
  "walk h None k = Some []"
| "walk h (Some a) 0 = None"
| "walk h (Some a) (Suc k) =
     (case fmlookup h a of
        None \<Rightarrow> None
      | Some n \<Rightarrow> (case walk h (next n) k of None \<Rightarrow> None | Some as \<Rightarrow> Some (a # as)))"

text \<open>
  The second invariant: following \<^verbatim>\<open>next\<close> from \<^verbatim>\<open>first\<close> reaches \<^verbatim>\<open>NULL\<close> after exactly \<^verbatim>\<open>size\<close>
  nodes, and the last node on the way is \<^verbatim>\<open>last\<close>.
\<close>

definition well_formed :: "('a, 's::len) state \<Rightarrow> bool" where
  "well_formed s =
     (case walk (heap s) (DEQUE_FIRST s) (unat (DEQUE_SIZE s)) of
        None \<Rightarrow> False
      | Some as \<Rightarrow>
          length as = unat (DEQUE_SIZE s) \<and>
          DEQUE_LAST s = (if as = [] then None else Some (last as)))"

text \<open>\<open>returns r P\<close>: the macro came back, in a state that satisfies \<open>P\<close>.\<close>

definition returns :: "fault + 'x \<Rightarrow> ('x \<Rightarrow> bool) \<Rightarrow> bool" where
  "returns r P = (case r of Inl e \<Rightarrow> False | Inr x \<Rightarrow> P x)"

subsection \<open>Some concrete deques\<close>

text \<open>
  With a 64-bit \<^verbatim>\<open>size_t\<close> and \<^verbatim>\<open>int\<close> elements: the empty deque, deques of one and of two nodes,
  the two-node deque beside an allocated node that is not linked in (its \<^verbatim>\<open>next\<close> points
  at node 1), and two deques whose \<^verbatim>\<open>size\<close> is not the length of the chain.
\<close>

definition no_nodes :: "(int, 64) state" where
  "no_nodes = \<lparr>heap = fmempty, deque = DEQUE_DEFAULT\<rparr>"

definition one_node :: "(int, 64) state" where
  "one_node =
     \<lparr>heap = fmupd 1 \<lparr>data = 10, next = None\<rparr> fmempty,
      deque = \<lparr>first = Some 1, last' = Some 1, size' = 1\<rparr>\<rparr>"

definition two_nodes :: "(int, 64) state" where
  "two_nodes =
     \<lparr>heap = fmupd 1 \<lparr>data = 10, next = Some 2\<rparr> (fmupd 2 \<lparr>data = 20, next = None\<rparr> fmempty),
      deque = \<lparr>first = Some 1, last' = Some 2, size' = 2\<rparr>\<rparr>"

definition spare_node :: "(int, 64) state" where
  "spare_node =
     \<lparr>heap = fmupd 3 \<lparr>data = 30, next = Some 1\<rparr>
        (fmupd 1 \<lparr>data = 10, next = Some 2\<rparr> (fmupd 2 \<lparr>data = 20, next = None\<rparr> fmempty)),
      deque = \<lparr>first = Some 1, last' = Some 2, size' = 2\<rparr>\<rparr>"

definition miscounted :: "(int, 64) state" where
  "miscounted =
     \<lparr>heap = fmupd 1 \<lparr>data = 10, next = Some 2\<rparr> (fmupd 2 \<lparr>data = 20, next = None\<rparr> fmempty),
      deque = \<lparr>first = Some 1, last' = Some 2, size' = 1\<rparr>\<rparr>"

definition full_count :: "(int, 64) state" where
  "full_count =
     \<lparr>heap = fmupd 1 \<lparr>data = 10, next = None\<rparr> fmempty,
      deque = \<lparr>first = Some 1, last' = Some 1, size' = - 1\<rparr>\<rparr>"

section \<open>What the macros do\<close>

subsection \<open>The effect of each macro on an allocated node\<close>

lemma node_overwrite [simp]: "(n :: 'a node)\<lparr>data := v, next := q\<rparr> = \<lparr>data = v, next = q\<rparr>"
  by (cases n) simp

lemma NODE_DATA_assign_null: "NODE_DATA_assign h None v = Inl NullDereference"
  by (simp add: NODE_DATA_assign_def)

lemma DEQUE_PUSH_NODE_Some:
  "fmlookup (heap s) a = Some m \<Longrightarrow>
     DEQUE_PUSH_NODE s (Some a) =
       Inr \<lparr>heap = fmupd a (m\<lparr>next := DEQUE_FIRST s\<rparr>) (heap s),
            deque = \<lparr>first = Some a,
                     last' = (if DEQUE_FIRST s = None then Some a else DEQUE_LAST s),
                     size' = DEQUE_SIZE s + 1\<rparr>\<rparr>"
  by (simp add: DEQUE_PUSH_NODE_def NODE_NEXT_assign_def Let_def)

lemma DEQUE_APPEND_NODE_empty:
  "fmlookup (heap s) a = Some m \<Longrightarrow> DEQUE_FIRST s = None \<Longrightarrow>
     DEQUE_APPEND_NODE s (Some a) =
       Inr \<lparr>heap = fmupd a (m\<lparr>next := None\<rparr>) (heap s),
            deque = \<lparr>first = Some a, last' = Some a, size' = DEQUE_SIZE s + 1\<rparr>\<rparr>"
  by (simp add: DEQUE_APPEND_NODE_def NODE_NEXT_assign_def Let_def)

lemma DEQUE_APPEND_NODE_nonempty:
  "fmlookup (heap s) a = Some m \<Longrightarrow> DEQUE_FIRST s \<noteq> None \<Longrightarrow> DEQUE_LAST s = Some l \<Longrightarrow>
   l \<noteq> a \<Longrightarrow> fmlookup (heap s) l = Some n \<Longrightarrow>
     DEQUE_APPEND_NODE s (Some a) =
       Inr \<lparr>heap = fmupd l (n\<lparr>next := Some a\<rparr>) (fmupd a (m\<lparr>next := None\<rparr>) (heap s)),
            deque = \<lparr>first = DEQUE_FIRST s, last' = Some a, size' = DEQUE_SIZE s + 1\<rparr>\<rparr>"
  by (auto simp add: DEQUE_APPEND_NODE_def NODE_NEXT_assign_def Let_def)

lemma DEQUE_PUSH_Some:
  "DEQUE_PUSH s (Some (a, junk)) v =
     Inr \<lparr>heap = fmupd a \<lparr>data = v, next = DEQUE_FIRST s\<rparr> (heap s),
          deque = \<lparr>first = Some a,
                   last' = (if DEQUE_FIRST s = None then Some a else DEQUE_LAST s),
                   size' = DEQUE_SIZE s + 1\<rparr>\<rparr>"
  by (simp add: DEQUE_PUSH_def NODE_ALLOC_def NODE_DATA_assign_def
      DEQUE_PUSH_NODE_def NODE_NEXT_assign_def Let_def)

lemma DEQUE_APPEND_empty:
  "DEQUE_FIRST s = None \<Longrightarrow>
     DEQUE_APPEND s (Some (a, junk)) v =
       Inr \<lparr>heap = fmupd a \<lparr>data = v, next = None\<rparr> (heap s),
            deque = \<lparr>first = Some a, last' = Some a, size' = DEQUE_SIZE s + 1\<rparr>\<rparr>"
  by (simp add: DEQUE_APPEND_def NODE_ALLOC_def NODE_DATA_assign_def
      DEQUE_APPEND_NODE_def NODE_NEXT_assign_def Let_def)

lemma DEQUE_APPEND_nonempty:
  "DEQUE_FIRST s \<noteq> None \<Longrightarrow> DEQUE_LAST s = Some l \<Longrightarrow> l \<noteq> a \<Longrightarrow>
   fmlookup (heap s) l = Some n \<Longrightarrow>
     DEQUE_APPEND s (Some (a, junk)) v =
       Inr \<lparr>heap = fmupd l (n\<lparr>next := Some a\<rparr>) (fmupd a \<lparr>data = v, next = None\<rparr> (heap s)),
            deque = \<lparr>first = DEQUE_FIRST s, last' = Some a, size' = DEQUE_SIZE s + 1\<rparr>\<rparr>"
  by (auto simp add: DEQUE_APPEND_def NODE_ALLOC_def NODE_DATA_assign_def
      DEQUE_APPEND_NODE_def NODE_NEXT_assign_def Let_def)

lemma DEQUE_POP_Some:
  "DEQUE_FIRST s = Some a \<Longrightarrow> fmlookup (heap s) a = Some n \<Longrightarrow>
     DEQUE_POP ndebug s =
       Inr \<lparr>heap = fmdrop a (heap s),
            deque = \<lparr>first = next n,
                     last' = (if next n = None then None else DEQUE_LAST s),
                     size' = DEQUE_SIZE s - 1\<rparr>\<rparr>"
  by (simp add: DEQUE_POP_def DEQUE_POP_NODE_def NODE_NEXT_def NODE_FREE_def Let_def)

lemma returns_mono: "returns r P \<Longrightarrow> (\<And>x. P x \<Longrightarrow> Q x) \<Longrightarrow> returns r Q"
  by (cases r) (simp_all add: returns_def)

lemma unat_incr: "x + 1 \<noteq> 0 \<Longrightarrow> unat (x + 1) = Suc (unat x)"
  using unatSuc [of x] by (simp add: add.commute)

subsection \<open>Chains of nodes\<close>

lemma chain_None [simp]: "chain h None as \<longleftrightarrow> as = []"
  by (cases as) simp_all

lemma chain_Cons [simp]:
  "chain h p (a # as) \<longleftrightarrow> p = Some a \<and> (\<exists>n. fmlookup h a = Some n \<and> chain h (next n) as)"
  by (cases "fmlookup h a") simp_all

declare chain.simps(2) [simp del]

lemma chain_Some:
  "chain h (Some a) as \<longleftrightarrow>
     (\<exists>n bs. as = a # bs \<and> fmlookup h a = Some n \<and> chain h (next n) bs)"
  by (cases as) auto

lemma chain_unique: "chain h p as \<Longrightarrow> chain h p bs \<Longrightarrow> as = bs"
proof (induction as arbitrary: p bs)
  case Nil
  then show ?case by simp
next
  case (Cons a as)
  from Cons.prems obtain n cs where "bs = a # cs" "fmlookup h a = Some n"
    "chain h (next n) as" "chain h (next n) cs"
    by (cases bs) auto
  with Cons.IH show ?case by blast
qed

lemma chain_allocated: "chain h p as \<Longrightarrow> a \<in> set as \<Longrightarrow> a |\<in>| fmdom h"
  by (induction as arbitrary: p) (auto simp add: fmlookup_dom_iff)

lemma chain_from_member:
  "chain h p as \<Longrightarrow> a \<in> set as \<Longrightarrow> \<exists>bs. chain h (Some a) bs \<and> length bs \<le> length as"
proof (induction as arbitrary: p)
  case Nil
  then show ?case by simp
next
  case (Cons b as)
  show ?case
  proof (cases "a = b")
    case True
    with Cons.prems(1) have "chain h (Some a) (b # as)" by simp
    then show ?thesis by blast
  next
    case False
    with Cons.prems obtain n where "fmlookup h b = Some n" and "chain h (next n) as" and "a \<in> set as"
      by auto
    from Cons.IH [OF this(2,3)] show ?thesis
      by (auto intro: le_SucI)
  qed
qed

lemma chain_head_fresh:
  assumes "fmlookup h a = Some n" and "chain h (next n) as"
  shows "a \<notin> set as"
proof
  assume "a \<in> set as"
  with assms(2) obtain bs where bs: "chain h (Some a) bs" "length bs \<le> length as"
    using chain_from_member by blast
  from assms have "chain h (Some a) (a # as)" by simp
  with bs(1) have "bs = a # as" by (rule chain_unique)
  with bs(2) show False by simp
qed

lemma chain_distinct: "chain h p as \<Longrightarrow> distinct as"
  by (induction as arbitrary: p) (auto dest: chain_head_fresh)

lemma chain_fmupd_other: "a \<notin> set as \<Longrightarrow> chain (fmupd a n h) p as = chain h p as"
  by (induction as arbitrary: p) auto

lemma chain_fmdrop_other: "a \<notin> set as \<Longrightarrow> chain (fmdrop a h) p as = chain h p as"
  by (induction as arbitrary: p) auto


lemma chain_snoc:
  assumes "chain h p as" and "as \<noteq> []" and "a \<notin> set as"
    and "fmlookup h a = Some m" and "next m = None" and "fmlookup h (last as) = Some n"
  shows "chain (fmupd (last as) (n\<lparr>next := Some a\<rparr>) h) p (as @ [a])"
  using assms
proof (induction as arbitrary: p)
  case Nil
  then show ?case by simp
next
  case (Cons b bs)
  from Cons.prems(1) obtain nb where nb: "p = Some b" "fmlookup h b = Some nb" "chain h (next nb) bs"
    by auto
  show ?case
  proof (cases "bs = []")
    case True
    with Cons.prems nb show ?thesis by auto
  next
    case False
    from nb have "b \<notin> set bs" by (auto dest: chain_head_fresh)
    with False have "last bs \<noteq> b" using last_in_set by metis
    moreover from Cons.prems False nb
    have "chain (fmupd (last bs) (n\<lparr>next := Some a\<rparr>) h) (next nb) (bs @ [a])"
      by (intro Cons.IH) auto
    ultimately show ?thesis using False nb by simp
  qed
qed

lemma walk_chain: "walk h p k = Some as \<longleftrightarrow> chain h p as \<and> length as \<le> k"
proof (induction h p k arbitrary: as rule: walk.induct)
  case (1 h k)
  then show ?case by auto
next
  case (2 h a)
  then show ?case by (auto simp add: chain_Some)
next
  case (3 h a k)
  show ?case
  proof (cases "fmlookup h a")
    case None
    then show ?thesis by (auto simp add: chain_Some)
  next
    case (Some n)
    have "(case walk h (next n) k of None \<Rightarrow> None | Some bs \<Rightarrow> Some (a # bs)) = Some as
       \<longleftrightarrow> (\<exists>bs. as = a # bs \<and> walk h (next n) k = Some bs)"
      by (cases "walk h (next n) k") auto
    with Some 3 [OF Some] show ?thesis
      by (auto simp add: chain_Some)
  qed
qed

subsection \<open>Well-formed deques\<close>

lemma well_formed_iff:
  "well_formed s \<longleftrightarrow>
     (\<exists>as. chain (heap s) (DEQUE_FIRST s) as \<and> length as = unat (DEQUE_SIZE s) \<and>
           DEQUE_LAST s = (if as = [] then None else Some (last as)))"
  (is "_ \<longleftrightarrow> (\<exists>as. ?P as)")
proof
  assume "well_formed s"
  then obtain as where w: "walk (heap s) (DEQUE_FIRST s) (unat (DEQUE_SIZE s)) = Some as"
    and l: "length as = unat (DEQUE_SIZE s)"
    and e: "DEQUE_LAST s = (if as = [] then None else Some (last as))"
    unfolding well_formed_def
    by (cases "walk (heap s) (DEQUE_FIRST s) (unat (DEQUE_SIZE s))") simp_all
  from w have "chain (heap s) (DEQUE_FIRST s) as"
    by (simp add: walk_chain)
  with l e show "\<exists>as. ?P as" by blast
next
  assume "\<exists>as. ?P as"
  then obtain as where c: "chain (heap s) (DEQUE_FIRST s) as"
    and l: "length as = unat (DEQUE_SIZE s)"
    and e: "DEQUE_LAST s = (if as = [] then None else Some (last as))"
    by blast
  from c l have "walk (heap s) (DEQUE_FIRST s) (unat (DEQUE_SIZE s)) = Some as"
    by (simp add: walk_chain)
  with l e show "well_formed s"
    unfolding well_formed_def by simp
qed

lemma well_formedI:
  "chain (heap s) (DEQUE_FIRST s) as \<Longrightarrow> length as = unat (DEQUE_SIZE s) \<Longrightarrow>
   DEQUE_LAST s = (if as = [] then None else Some (last as)) \<Longrightarrow> well_formed s"
  unfolding well_formed_iff by blast

lemma well_formedE:
  assumes "well_formed s"
  obtains as where "chain (heap s) (DEQUE_FIRST s) as" and "length as = unat (DEQUE_SIZE s)"
    and "DEQUE_LAST s = (if as = [] then None else Some (last as))"
  using assms unfolding well_formed_iff by blast

lemma well_formed_invariant1:
  assumes "well_formed s"
  shows "invariant1 (deque s)"
proof -
  from assms obtain as where c: "chain (heap s) (DEQUE_FIRST s) as"
    and l: "length as = unat (DEQUE_SIZE s)"
    and e: "DEQUE_LAST s = (if as = [] then None else Some (last as))"
    by (rule well_formedE)
  show ?thesis
  proof (cases as)
    case Nil
    with c l e show ?thesis
      by (simp add: invariant1_def unat_eq_0)
  next
    case (Cons a bs)
    with l have "DEQUE_SIZE s \<noteq> 0" by auto
    with Cons c e show ?thesis
      by (simp add: invariant1_def)
  qed
qed

subsection \<open>Insertion and removal keep a deque well formed\<close>

lemma push_well_formed:
  assumes wf: "well_formed s" and fresh: "a |\<notin>| fmdom (heap s)" and room: "DEQUE_SIZE s + 1 \<noteq> 0"
  shows "returns (DEQUE_PUSH s (Some (a, junk)) v) well_formed"
proof -
  from wf obtain as where c: "chain (heap s) (DEQUE_FIRST s) as"
    and l: "length as = unat (DEQUE_SIZE s)"
    and e: "DEQUE_LAST s = (if as = [] then None else Some (last as))"
    by (rule well_formedE)
  let ?s' = "\<lparr>heap = fmupd a \<lparr>data = v, next = DEQUE_FIRST s\<rparr> (heap s),
          deque = \<lparr>first = Some a,
                   last' = (if DEQUE_FIRST s = None then Some a else DEQUE_LAST s),
                   size' = DEQUE_SIZE s + 1\<rparr>\<rparr>"
  from c fresh have "a \<notin> set as"
    using chain_allocated by blast
  with c have "chain (heap ?s') (DEQUE_FIRST ?s') (a # as)"
    by (simp add: chain_fmupd_other)
  moreover from l room have "length (a # as) = unat (DEQUE_SIZE ?s')"
    by (simp add: unat_incr)
  moreover from c e have "DEQUE_LAST ?s' = (if a # as = [] then None else Some (last (a # as)))"
    by (cases as) auto
  ultimately have "well_formed ?s'"
    by (rule well_formedI)
  then show ?thesis
    by (simp add: DEQUE_PUSH_Some returns_def)
qed

lemma append_well_formed:
  assumes wf: "well_formed s" and fresh: "a |\<notin>| fmdom (heap s)" and room: "DEQUE_SIZE s + 1 \<noteq> 0"
  shows "returns (DEQUE_APPEND s (Some (a, junk)) v) well_formed"
proof -
  from wf obtain as where c: "chain (heap s) (DEQUE_FIRST s) as"
    and l: "length as = unat (DEQUE_SIZE s)"
    and e: "DEQUE_LAST s = (if as = [] then None else Some (last as))"
    by (rule well_formedE)
  from c fresh have a: "a \<notin> set as"
    using chain_allocated by blast
  from l room have l': "length (as @ [a]) = unat (DEQUE_SIZE s + 1)"
    by (simp add: unat_incr)
  show ?thesis
  proof (cases as)
    case Nil
    with c have f: "DEQUE_FIRST s = None" by simp
    let ?s' = "\<lparr>heap = fmupd a \<lparr>data = v, next = None\<rparr> (heap s),
            deque = \<lparr>first = Some a, last' = Some a, size' = DEQUE_SIZE s + 1\<rparr>\<rparr>"
    have "chain (heap ?s') (DEQUE_FIRST ?s') (as @ [a])"
      using Nil by simp
    moreover from l' have "length (as @ [a]) = unat (DEQUE_SIZE ?s')" by simp
    moreover have "DEQUE_LAST ?s' = (if as @ [a] = [] then None else Some (last (as @ [a])))"
      by simp
    ultimately have "well_formed ?s'"
      by (rule well_formedI)
    with f show ?thesis
      by (simp add: DEQUE_APPEND_empty returns_def)
  next
    case (Cons b bs)
    with c have f: "DEQUE_FIRST s \<noteq> None" by auto
    from Cons e have la: "DEQUE_LAST s = Some (last as)" by simp
    from Cons have "last as \<in> set as" by simp
    with a have ne: "last as \<noteq> a" by metis
    from c \<open>last as \<in> set as\<close> obtain n where n: "fmlookup (heap s) (last as) = Some n"
      using chain_allocated fmlookup_dom_iff by metis
    let ?h = "fmupd a \<lparr>data = v, next = None\<rparr> (heap s)"
    let ?s' = "\<lparr>heap = fmupd (last as) (n\<lparr>next := Some a\<rparr>) ?h,
            deque = \<lparr>first = DEQUE_FIRST s, last' = Some a, size' = DEQUE_SIZE s + 1\<rparr>\<rparr>"
    from c a have "chain ?h (DEQUE_FIRST s) as"
      by (simp add: chain_fmupd_other)
    moreover from Cons have "as \<noteq> []" by simp
    moreover note a
    moreover have "fmlookup ?h a = Some \<lparr>data = v, next = None\<rparr>" by simp
    moreover have "next \<lparr>data = v, next = None\<rparr> = None" by simp
    moreover from n ne have "fmlookup ?h (last as) = Some n" by simp
    ultimately have "chain (fmupd (last as) (n\<lparr>next := Some a\<rparr>) ?h) (DEQUE_FIRST s) (as @ [a])"
      by (rule chain_snoc)
    then have "chain (heap ?s') (DEQUE_FIRST ?s') (as @ [a])" by simp
    moreover from l' have "length (as @ [a]) = unat (DEQUE_SIZE ?s')" by simp
    moreover have "DEQUE_LAST ?s' = (if as @ [a] = [] then None else Some (last (as @ [a])))"
      by simp
    ultimately have "well_formed ?s'"
      by (rule well_formedI)
    with f la ne n show ?thesis
      by (simp add: DEQUE_APPEND_nonempty returns_def)
  qed
qed

lemma pop_well_formed:
  assumes wf: "well_formed s" and nonempty: "DEQUE_SIZE s \<noteq> 0"
  shows "returns (DEQUE_POP ndebug s) well_formed"
proof -
  from wf obtain as where c: "chain (heap s) (DEQUE_FIRST s) as"
    and l: "length as = unat (DEQUE_SIZE s)"
    and e: "DEQUE_LAST s = (if as = [] then None else Some (last as))"
    by (rule well_formedE)
  from l nonempty have "as \<noteq> []"
    by (auto simp add: unat_eq_0)
  with c obtain a bs n where as: "as = a # bs" and f: "DEQUE_FIRST s = Some a"
    and n: "fmlookup (heap s) a = Some n" and t: "chain (heap s) (next n) bs"
    by (cases as) auto
  let ?s' = "\<lparr>heap = fmdrop a (heap s),
            deque = \<lparr>first = next n,
                     last' = (if next n = None then None else DEQUE_LAST s),
                     size' = DEQUE_SIZE s - 1\<rparr>\<rparr>"
  from n t have "a \<notin> set bs" by (rule chain_head_fresh)
  with t have "chain (heap ?s') (DEQUE_FIRST ?s') bs"
    by (simp add: chain_fmdrop_other)
  moreover from l as nonempty have "length bs = unat (DEQUE_SIZE ?s')"
    by (simp add: unat_minus_one)
  moreover from t e as have "DEQUE_LAST ?s' = (if bs = [] then None else Some (last bs))"
    by (cases bs) auto
  ultimately have "well_formed ?s'"
    by (rule well_formedI)
  with f n show ?thesis
    by (simp add: DEQUE_POP_Some returns_def)
qed

subsection \<open>Freeing the whole chain\<close>

declare DEQUE_FREE_loop.simps [simp del]

lemma DEQUE_FREE_loop_chain:
  "chain (heap s) (DEQUE_FIRST s) as \<Longrightarrow>
     DEQUE_FREE_loop s = Inr \<lparr>heap = fold fmdrop as (heap s), deque = (deque s)\<lparr>first := None\<rparr>\<rparr>"
proof (induction as arbitrary: s)
  case Nil
  then have "DEQUE_FIRST s = None" by simp
  then show ?case
    by (subst DEQUE_FREE_loop.simps) simp
next
  case (Cons a as)
  then obtain n where f: "DEQUE_FIRST s = Some a" and n: "fmlookup (heap s) a = Some n"
    and t: "chain (heap s) (next n) as"
    by auto
  let ?s1 = "\<lparr>heap = fmdrop a (heap s), deque = (deque s)\<lparr>first := next n\<rparr>\<rparr>"
  from n t have "a \<notin> set as" by (rule chain_head_fresh)
  with t have "chain (heap ?s1) (DEQUE_FIRST ?s1) as"
    by (simp add: chain_fmdrop_other)
  then have "DEQUE_FREE_loop ?s1 =
      Inr \<lparr>heap = fold fmdrop as (heap ?s1), deque = (deque ?s1)\<lparr>first := None\<rparr>\<rparr>"
    by (rule Cons.IH)
  moreover from f n have "DEQUE_FREE_loop s = DEQUE_FREE_loop ?s1"
    by (subst DEQUE_FREE_loop.simps) (simp add: NODE_NEXT_def NODE_FREE_def)
  ultimately show ?case by simp
qed

lemma DEQUE_FREE_chain:
  "chain (heap s) (DEQUE_FIRST s) as \<Longrightarrow>
     DEQUE_FREE s = Inr \<lparr>heap = fold fmdrop as (heap s), deque = DEQUE_DEFAULT\<rparr>"
  by (simp add: DEQUE_FREE_def DEQUE_FREE_loop_chain DEQUE_DEFAULT_def)

lemma well_formed_default: "deque s = DEQUE_DEFAULT \<Longrightarrow> well_formed s"
  by (simp add: well_formed_def DEQUE_DEFAULT_def)

lemma free_well_formed:
  assumes "well_formed s"
  shows "returns (DEQUE_FREE s) (\<lambda>s'. deque s' = DEQUE_DEFAULT \<and> DEQUE_FREE s' = Inr s')"
proof -
  from assms obtain as where c: "chain (heap s) (DEQUE_FIRST s) as"
    by (rule well_formedE)
  let ?s' = "\<lparr>heap = fold fmdrop as (heap s), deque = DEQUE_DEFAULT\<rparr> :: ('a, 'b) state"
  have "chain (heap ?s') (DEQUE_FIRST ?s') []"
    by (simp add: DEQUE_DEFAULT_def)
  then have "DEQUE_FREE ?s' = Inr ?s'"
    by (simp add: DEQUE_FREE_chain)
  with c show ?thesis
    by (simp add: DEQUE_FREE_chain returns_def)
qed

lemma empty_is_default: "invariant1 d \<Longrightarrow> size' d = 0 \<Longrightarrow> d = DEQUE_DEFAULT"
  by (cases d) (simp add: invariant1_def DEQUE_DEFAULT_def)

lemma DEQUE_FREE_empty:
  assumes "invariant1 (deque s)" and "DEQUE_SIZE s = 0"
  shows "DEQUE_FREE s = Inr s"
proof -
  from assms have d: "deque s = DEQUE_DEFAULT" by (rule empty_is_default)
  then have "chain (heap s) (DEQUE_FIRST s) []"
    by (simp add: DEQUE_DEFAULT_def)
  then have "DEQUE_FREE s = Inr \<lparr>heap = fold fmdrop [] (heap s), deque = DEQUE_DEFAULT\<rparr>"
    by (rule DEQUE_FREE_chain)
  with d show ?thesis by simp
qed

subsection \<open>The concrete deques are well formed\<close>

lemma walk_numeral:
  "walk h (Some a) (numeral k) = walk h (Some a) (Suc (pred_numeral k))"
  by (simp only: numeral_eq_Suc)

lemma well_formed_no_nodes: "well_formed no_nodes"
  by (simp add: no_nodes_def well_formed_def DEQUE_DEFAULT_def)

lemma well_formed_one_node: "well_formed one_node"
  by (simp add: one_node_def well_formed_def)

lemma well_formed_two_nodes: "well_formed two_nodes"
  by (simp add: two_nodes_def well_formed_def walk_numeral)

lemma well_formed_spare_node: "well_formed spare_node"
  by (simp add: spare_node_def well_formed_def walk_numeral)

section \<open>The claims of the specification\<close>

subsection \<open>C1: what \<^verbatim>\<open>DEQUE_POP\<close> does to a non-empty deque\<close>

text \<open>
  C1, as the code has it. On a deque whose \<^verbatim>\<open>first\<close> points to an allocated node,
  \<^verbatim>\<open>DEQUE_POP\<close> detaches that node (\<^verbatim>\<open>first\<close> becomes its successor, and \<^verbatim>\<open>last\<close> becomes \<^verbatim>\<open>NULL\<close>
  when there is no successor), frees it and decrements \<^verbatim>\<open>size\<close> by one. The macro is a
  statement: it hands no value to its caller, and the value of the detached node cannot be
  read afterwards, the node being freed.
\<close>

theorem pop_front_effect:
  "DEQUE_FIRST s = Some a \<Longrightarrow> fmlookup (heap s) a = Some n \<Longrightarrow>
     DEQUE_POP ndebug s =
       Inr \<lparr>heap = fmdrop a (heap s),
            deque = \<lparr>first = next n,
                     last' = (if next n = None then None else DEQUE_LAST s),
                     size' = DEQUE_SIZE s - 1\<rparr>\<rparr> \<and>
     NODE_DATA (fmdrop a (heap s)) (Some a) = Inl InvalidPointer"
  by (simp add: DEQUE_POP_Some NODE_DATA_def)

text \<open>The two-node deque loses node 1, and only node 2 stays allocated.\<close>

theorem pop_front_effect_witness:
  "DEQUE_FIRST two_nodes = Some 1 \<and>
   fmlookup (heap two_nodes) 1 = Some \<lparr>data = 10, next = Some 2\<rparr> \<and>
   DEQUE_POP False two_nodes =
     Inr \<lparr>heap = fmupd 2 \<lparr>data = 20, next = None\<rparr> fmempty,
          deque = \<lparr>first = Some 2, last' = Some 2, size' = 1\<rparr>\<rparr> \<and>
   NODE_DATA (fmdrop 1 (heap two_nodes)) (Some 1) = Inl InvalidPointer"
proof -
  have f: "DEQUE_FIRST two_nodes = Some 1"
    and n: "fmlookup (heap two_nodes) 1 = Some \<lparr>data = 10, next = Some 2\<rparr>"
    by (simp_all add: two_nodes_def)
  from pop_front_effect [OF f n, of False] f n show ?thesis
    by (simp add: two_nodes_def fmdrop_fmupd)
qed

text \<open>
  The claim has \<^verbatim>\<open>DEQUE_POP\<close> return the detached node's value. Two deques that differ only in
  the value of their single node (10 and 11, as \<^verbatim>\<open>DEQUE_HEAD\<close> reads them) are taken by
  \<^verbatim>\<open>DEQUE_POP\<close> to one and the same result: nothing of the value comes back.
\<close>

theorem pop_front_value_counterexample:
  "DEQUE_HEAD \<lparr>heap = fmupd 1 \<lparr>data = 10::int, next = None\<rparr> fmempty,
               deque = \<lparr>first = Some 1, last' = Some 1, size' = 1::64 word\<rparr>\<rparr> = Inr 10 \<and>
   DEQUE_HEAD \<lparr>heap = fmupd 1 \<lparr>data = 11::int, next = None\<rparr> fmempty,
               deque = \<lparr>first = Some 1, last' = Some 1, size' = 1::64 word\<rparr>\<rparr> = Inr 11 \<and>
   DEQUE_POP False \<lparr>heap = fmupd 1 \<lparr>data = 10::int, next = None\<rparr> fmempty,
                    deque = \<lparr>first = Some 1, last' = Some 1, size' = 1::64 word\<rparr>\<rparr> =
   DEQUE_POP False \<lparr>heap = fmupd 1 \<lparr>data = 11::int, next = None\<rparr> fmempty,
                    deque = \<lparr>first = Some 1, last' = Some 1, size' = 1::64 word\<rparr>\<rparr>"
  by (simp add: DEQUE_HEAD_def NODE_DATA_def DEQUE_POP_def DEQUE_POP_NODE_def NODE_NEXT_def
      NODE_FREE_def fmdrop_fmupd)

subsection \<open>C2: allocation failure\<close>

text \<open>
  C2, as the code has it. When the allocator returns \<^verbatim>\<open>NULL\<close>, \<^verbatim>\<open>DEQUE_PUSH\<close> and
  \<^verbatim>\<open>DEQUE_APPEND\<close> store the value through the null pointer: neither macro tests the pointer,
  so neither reports anything to its caller, and the behaviour is undefined from the store
  on, whatever the deque.
\<close>

theorem alloc_failure_dereferences_null:
  "DEQUE_PUSH s None v = Inl NullDereference \<and> DEQUE_APPEND s None v = Inl NullDereference"
  by (simp add: DEQUE_PUSH_def DEQUE_APPEND_def NODE_ALLOC_def NODE_DATA_assign_null)

text \<open>
  The claim has the macro come back with the deque as it was. On the empty deque, with a
  failing allocator, neither macro comes back with the unchanged state.
\<close>

theorem alloc_failure_counterexample:
  "DEQUE_PUSH no_nodes None 7 = Inl NullDereference \<and>
   DEQUE_PUSH no_nodes None 7 \<noteq> Inr no_nodes \<and>
   DEQUE_APPEND no_nodes None 7 = Inl NullDereference \<and>
   DEQUE_APPEND no_nodes None 7 \<noteq> Inr no_nodes"
  by (simp add: DEQUE_PUSH_def DEQUE_APPEND_def NODE_ALLOC_def NODE_DATA_assign_null)

subsection \<open>C3: the accessors on an empty deque\<close>

text \<open>
  C3, as the code has it. On an empty deque (\<^verbatim>\<open>size\<close> is 0, and by the first invariant \<^verbatim>\<open>first\<close>
  and \<^verbatim>\<open>last\<close> are \<^verbatim>\<open>NULL\<close>), \<^verbatim>\<open>DEQUE_POP\<close> stops at its \<^verbatim>\<open>assert\<close> when assertions are compiled
  in, and dereferences \<^verbatim>\<open>NULL\<close> when they are not; \<^verbatim>\<open>DEQUE_HEAD\<close> and \<^verbatim>\<open>DEQUE_TAIL\<close> contain no
  check at all and dereference \<^verbatim>\<open>NULL\<close>.
\<close>

theorem empty_deque_access:
  "invariant1 (deque s) \<Longrightarrow> DEQUE_SIZE s = 0 \<Longrightarrow>
     DEQUE_POP False s = Inl AssertionFailed \<and>
     DEQUE_POP True s = Inl NullDereference \<and>
     DEQUE_HEAD s = Inl NullDereference \<and>
     DEQUE_TAIL s = Inl NullDereference"
  by (auto simp add: invariant1_def DEQUE_POP_def DEQUE_POP_NODE_def NODE_NEXT_def DEQUE_HEAD_def
      DEQUE_TAIL_def NODE_DATA_def)

theorem empty_deque_access_witness:
  "invariant1 (deque no_nodes) \<and> DEQUE_SIZE no_nodes = 0 \<and>
   DEQUE_POP False no_nodes = Inl AssertionFailed \<and>
   DEQUE_POP True no_nodes = Inl NullDereference \<and>
   DEQUE_HEAD no_nodes = Inl NullDereference \<and>
   DEQUE_TAIL no_nodes = Inl NullDereference"
proof -
  have i: "invariant1 (deque no_nodes)" and z: "DEQUE_SIZE no_nodes = 0"
    by (simp_all add: no_nodes_def DEQUE_DEFAULT_def invariant1_def)
  from empty_deque_access [OF i z] i z show ?thesis
    by simp
qed

text \<open>
  The claim has all three accesses stopped by an assertion. On the empty deque,
  \<^verbatim>\<open>DEQUE_HEAD\<close> and \<^verbatim>\<open>DEQUE_TAIL\<close> do not end in a failed assertion.
\<close>

theorem peek_empty_counterexample:
  "DEQUE_SIZE no_nodes = 0 \<and>
   DEQUE_HEAD no_nodes \<noteq> Inl AssertionFailed \<and> DEQUE_TAIL no_nodes \<noteq> Inl AssertionFailed"
  by (simp add: no_nodes_def DEQUE_DEFAULT_def DEQUE_HEAD_def DEQUE_TAIL_def NODE_DATA_def)

subsection \<open>C4: the operations and the invariants\<close>

text \<open>
  C4, as the code has it. On a deque that satisfies the first and the second invariant (the
  chain from \<^verbatim>\<open>first\<close> reaches \<^verbatim>\<open>NULL\<close> after exactly \<^verbatim>\<open>size\<close> nodes, the last of them being
  \<^verbatim>\<open>last\<close>), every public operation comes back with a deque that satisfies both again:
  \<^verbatim>\<open>DEQUE_PUSH\<close> and \<^verbatim>\<open>DEQUE_APPEND\<close> when the allocator returns a node that was not allocated
  before and \<^verbatim>\<open>size\<close> is not the largest \<^verbatim>\<open>size_t\<close>, \<^verbatim>\<open>DEQUE_POP\<close> when \<^verbatim>\<open>size\<close> is not 0,
  \<^verbatim>\<open>DEQUE_CLEAR\<close> and \<^verbatim>\<open>DEQUE_FREE\<close> always.
\<close>

theorem operations_preserve_invariants:
  assumes "well_formed s"
  shows "(a |\<notin>| fmdom (heap s) \<and> DEQUE_SIZE s + 1 \<noteq> 0 \<longrightarrow>
            returns (DEQUE_PUSH s (Some (a, junk)) v)
              (\<lambda>s'. well_formed s' \<and> invariant1 (deque s')) \<and>
            returns (DEQUE_APPEND s (Some (a, junk)) v)
              (\<lambda>s'. well_formed s' \<and> invariant1 (deque s'))) \<and>
         (DEQUE_SIZE s \<noteq> 0 \<longrightarrow>
            returns (DEQUE_POP ndebug s) (\<lambda>s'. well_formed s' \<and> invariant1 (deque s'))) \<and>
         well_formed (DEQUE_CLEAR s) \<and> invariant1 (deque (DEQUE_CLEAR s)) \<and>
         returns (DEQUE_FREE s) (\<lambda>s'. well_formed s' \<and> invariant1 (deque s'))"
proof -
  have both: "returns r (\<lambda>s'. well_formed s' \<and> invariant1 (deque s'))"
    if "returns r well_formed" for r :: "fault + ('a, 'b) state"
    using that by (rule returns_mono) (simp add: well_formed_invariant1)
  have "deque (DEQUE_CLEAR s) = DEQUE_DEFAULT"
    by (simp add: DEQUE_CLEAR_def DEQUE_INIT_def DEQUE_DEFAULT_def)
  then have clear: "well_formed (DEQUE_CLEAR s)"
    by (rule well_formed_default)
  have "returns (DEQUE_FREE s) well_formed"
    using free_well_formed [OF assms] by (rule returns_mono) (simp add: well_formed_default)
  with assms clear show ?thesis
    by (simp add: both push_well_formed append_well_formed pop_well_formed well_formed_invariant1)
qed

theorem operations_preserve_invariants_witness:
  "well_formed two_nodes \<and> 3 |\<notin>| fmdom (heap two_nodes) \<and> DEQUE_SIZE two_nodes + 1 \<noteq> 0 \<and>
   DEQUE_SIZE two_nodes \<noteq> 0 \<and>
   returns (DEQUE_PUSH two_nodes (Some (3, \<lparr>data = 99, next = Some 7\<rparr>)) 5)
     (\<lambda>s'. well_formed s' \<and> invariant1 (deque s')) \<and>
   returns (DEQUE_APPEND two_nodes (Some (3, \<lparr>data = 99, next = Some 7\<rparr>)) 5)
     (\<lambda>s'. well_formed s' \<and> invariant1 (deque s')) \<and>
   returns (DEQUE_POP False two_nodes) (\<lambda>s'. well_formed s' \<and> invariant1 (deque s')) \<and>
   well_formed (DEQUE_CLEAR two_nodes) \<and> invariant1 (deque (DEQUE_CLEAR two_nodes)) \<and>
   returns (DEQUE_FREE two_nodes) (\<lambda>s'. well_formed s' \<and> invariant1 (deque s'))"
proof -
  have h: "3 |\<notin>| fmdom (heap two_nodes)" "DEQUE_SIZE two_nodes + 1 \<noteq> 0" "DEQUE_SIZE two_nodes \<noteq> 0"
    by (simp_all add: two_nodes_def)
  from operations_preserve_invariants
    [OF well_formed_two_nodes, of 3 "\<lparr>data = 99, next = Some 7\<rparr>" 5 False]
    well_formed_two_nodes h
  show ?thesis
    by simp
qed

text \<open>
  The claim asks for the first invariant only. A deque of two nodes whose \<^verbatim>\<open>size\<close> says 1
  satisfies it, and \<^verbatim>\<open>DEQUE_POP\<close> leaves \<^verbatim>\<open>size\<close> 0 beside a \<^verbatim>\<open>first\<close> that is not \<^verbatim>\<open>NULL\<close>. A deque
  whose \<^verbatim>\<open>size\<close> is the largest \<^verbatim>\<open>size_t\<close> satisfies it too, and \<^verbatim>\<open>DEQUE_PUSH\<close> wraps \<^verbatim>\<open>size\<close>
  around to 0.
\<close>

theorem invariant1_alone_counterexample:
  "invariant1 (deque miscounted) \<and> DEQUE_SIZE miscounted \<noteq> 0 \<and>
   DEQUE_POP False miscounted =
     Inr \<lparr>heap = fmupd 2 \<lparr>data = 20, next = None\<rparr> fmempty,
          deque = \<lparr>first = Some 2, last' = Some 2, size' = 0\<rparr>\<rparr> \<and>
   \<not> invariant1 \<lparr>first = Some 2, last' = Some 2, size' = 0 :: 64 word\<rparr> \<and>
   invariant1 (deque full_count) \<and>
   DEQUE_PUSH full_count (Some (2, \<lparr>data = 99, next = Some 7\<rparr>)) 5 =
     Inr \<lparr>heap = fmupd 2 \<lparr>data = 5, next = Some 1\<rparr> (fmupd 1 \<lparr>data = 10, next = None\<rparr> fmempty),
          deque = \<lparr>first = Some 2, last' = Some 1, size' = 0\<rparr>\<rparr> \<and>
   \<not> invariant1 \<lparr>first = Some 2, last' = Some 1, size' = 0 :: 64 word\<rparr>"
  by (simp add: miscounted_def full_count_def invariant1_def DEQUE_PUSH_Some DEQUE_POP_def
      DEQUE_POP_NODE_def NODE_NEXT_def NODE_FREE_def fmdrop_fmupd)

subsection \<open>C5: the order in which elements leave\<close>

text \<open>
  C5. From the empty deque, whatever else is allocated, and with an allocator that returns
  a new address each time: after \<^verbatim>\<open>DEQUE_PUSH\<close> of \<open>x\<close>, \<^verbatim>\<open>DEQUE_APPEND\<close> of \<open>y\<close> and \<^verbatim>\<open>DEQUE_PUSH\<close> of
  \<open>z\<close>, three removals from the front take out \<open>z\<close>, then \<open>x\<close>, then \<open>y\<close> (0, 1, 2 for the
  insertions of 1, 2, 0); after \<^verbatim>\<open>DEQUE_APPEND\<close> of \<open>x\<close> and of \<open>y\<close>, two removals take out \<open>x\<close>,
  then \<open>y\<close>. Each removal is \<^verbatim>\<open>DEQUE_HEAD\<close> followed by \<^verbatim>\<open>DEQUE_POP\<close>, and the deque and the store
  end as they began.
\<close>

theorem removal_order:
  assumes "a0 |\<notin>| fmdom h" and "a1 |\<notin>| fmdom h" and "a2 |\<notin>| fmdom h"
    and "a0 \<noteq> a1" and "a0 \<noteq> a2" and "a1 \<noteq> a2"
  shows "and_then (DEQUE_PUSH \<lparr>heap = h, deque = DEQUE_DEFAULT :: 's::len deque\<rparr> (Some (a1, j1)) x)
           (\<lambda>s. and_then (DEQUE_APPEND s (Some (a2, j2)) y)
             (\<lambda>s. and_then (DEQUE_PUSH s (Some (a0, j0)) z) (drain ndebug 3)))
         = Inr ([z, x, y], \<lparr>heap = h, deque = DEQUE_DEFAULT\<rparr>) \<and>
         and_then (DEQUE_APPEND \<lparr>heap = h, deque = DEQUE_DEFAULT :: 's deque\<rparr> (Some (a1, j1)) x)
           (\<lambda>s. and_then (DEQUE_APPEND s (Some (a2, j2)) y) (drain ndebug 2))
         = Inr ([x, y], \<lparr>heap = h, deque = DEQUE_DEFAULT\<rparr>)"
  using assms
  by (simp add: and_then_def DEQUE_PUSH_Some DEQUE_APPEND_empty DEQUE_APPEND_nonempty
      take_front_def DEQUE_HEAD_def NODE_DATA_def DEQUE_POP_Some DEQUE_DEFAULT_def
      numeral_3_eq_3 numeral_2_eq_2 fmdrop_fmupd fmdrop_idle)

text \<open>The insertions of 1, 2 and 0 of the specification, into nodes at addresses 1, 2 and 3.\<close>

theorem removal_order_witness:
  "(3::addr) |\<notin>| fmdom (heap no_nodes) \<and> (1::addr) |\<notin>| fmdom (heap no_nodes) \<and>
   (2::addr) |\<notin>| fmdom (heap no_nodes) \<and> (3::addr) \<noteq> 1 \<and> (3::addr) \<noteq> 2 \<and> (1::addr) \<noteq> 2 \<and>
   and_then (DEQUE_PUSH no_nodes (Some (1, \<lparr>data = 99, next = Some 7\<rparr>)) 1)
     (\<lambda>s. and_then (DEQUE_APPEND s (Some (2, \<lparr>data = 98, next = None\<rparr>)) 2)
       (\<lambda>s. and_then (DEQUE_PUSH s (Some (3, \<lparr>data = 97, next = Some 3\<rparr>)) 0) (drain False 3)))
     = Inr ([0, 1, 2], no_nodes) \<and>
   and_then (DEQUE_APPEND no_nodes (Some (1, \<lparr>data = 99, next = Some 7\<rparr>)) 1)
     (\<lambda>s. and_then (DEQUE_APPEND s (Some (2, \<lparr>data = 98, next = None\<rparr>)) 2) (drain False 2))
     = Inr ([1, 2], no_nodes)"
proof -
  have h: "(3::addr) |\<notin>| fmdom fmempty" "(1::addr) |\<notin>| fmdom fmempty"
    "(2::addr) |\<notin>| fmdom fmempty" "(3::addr) \<noteq> 1" "(3::addr) \<noteq> 2" "(1::addr) \<noteq> 2"
    by simp_all
  from removal_order [OF h, where ?'s = 64 and ?'a = int, of
      "\<lparr>data = 99, next = Some 7\<rparr>" 1 "\<lparr>data = 98, next = None\<rparr>" 2
      "\<lparr>data = 97, next = Some 3\<rparr>" 0 False]
  show ?thesis
    by (simp add: no_nodes_def)
qed

subsection \<open>C6: removing the only element\<close>

text \<open>
  C6. On a deque of size exactly 1 (its chain is one node long and \<^verbatim>\<open>size\<close> is 1),
  \<^verbatim>\<open>DEQUE_POP\<close> comes back with the deque that \<^verbatim>\<open>DEQUE_INIT\<close> makes: \<^verbatim>\<open>first\<close> and \<^verbatim>\<open>last\<close> are
  \<^verbatim>\<open>NULL\<close> and \<^verbatim>\<open>size\<close> is 0.
\<close>

theorem pop_only_element:
  assumes "well_formed s" and "DEQUE_SIZE s = 1"
  shows "returns (DEQUE_POP ndebug s) (\<lambda>s'. deque s' = DEQUE_DEFAULT \<and> s' = DEQUE_INIT s')"
proof -
  from assms obtain as where c: "chain (heap s) (DEQUE_FIRST s) as"
    and l: "length as = 1"
    by (auto elim: well_formedE)
  then obtain a where "as = [a]"
    by (cases as) auto
  with c obtain n where "DEQUE_FIRST s = Some a" and "fmlookup (heap s) a = Some n"
    and "next n = None"
    by auto
  with assms(2) show ?thesis
    by (simp add: DEQUE_POP_Some returns_def DEQUE_DEFAULT_def DEQUE_INIT_def)
qed

theorem pop_only_element_witness:
  "well_formed one_node \<and> DEQUE_SIZE one_node = 1 \<and>
   returns (DEQUE_POP False one_node) (\<lambda>s'. deque s' = DEQUE_DEFAULT \<and> s' = DEQUE_INIT s')"
proof -
  have s: "DEQUE_SIZE one_node = 1"
    by (simp add: one_node_def)
  from pop_only_element [OF well_formed_one_node s] well_formed_one_node s show ?thesis
    by simp
qed

subsection \<open>C7: the first insertion\<close>

text \<open>
  C7. On the empty deque, with the same answer of the allocator, \<^verbatim>\<open>DEQUE_PUSH\<close> and
  \<^verbatim>\<open>DEQUE_APPEND\<close> of a value come back with the same state: the new node holds the value and
  has no successor, \<^verbatim>\<open>first\<close> and \<^verbatim>\<open>last\<close> both point to it, and \<^verbatim>\<open>size\<close> is 1.
\<close>

theorem push_append_empty_same:
  "DEQUE_PUSH \<lparr>heap = h, deque = DEQUE_DEFAULT\<rparr> (Some (a, junk)) v =
     Inr \<lparr>heap = fmupd a \<lparr>data = v, next = None\<rparr> h,
          deque = \<lparr>first = Some a, last' = Some a, size' = 1\<rparr>\<rparr> \<and>
   DEQUE_APPEND \<lparr>heap = h, deque = DEQUE_DEFAULT\<rparr> (Some (a, junk)) v =
     Inr \<lparr>heap = fmupd a \<lparr>data = v, next = None\<rparr> h,
          deque = \<lparr>first = Some a, last' = Some a, size' = 1\<rparr>\<rparr>"
  by (simp add: DEQUE_PUSH_Some DEQUE_APPEND_empty DEQUE_DEFAULT_def)

subsection \<open>C8: destroying an empty deque, and destroying twice\<close>

text \<open>
  C8. On an empty deque \<^verbatim>\<open>DEQUE_FREE\<close> frees nothing and comes back with the state it was
  given. On any well-formed deque \<^verbatim>\<open>DEQUE_FREE\<close> comes back with an empty deque, and a second
  \<^verbatim>\<open>DEQUE_FREE\<close> right after it comes back with that same state.
\<close>

theorem destroy_idempotent:
  "(invariant1 (deque s) \<and> DEQUE_SIZE s = 0 \<longrightarrow> DEQUE_FREE s = Inr s) \<and>
   (well_formed s \<longrightarrow>
      returns (DEQUE_FREE s) (\<lambda>s'. deque s' = DEQUE_DEFAULT \<and> DEQUE_FREE s' = Inr s'))"
  by (simp add: DEQUE_FREE_empty free_well_formed)

theorem destroy_idempotent_witness:
  "invariant1 (deque no_nodes) \<and> DEQUE_SIZE no_nodes = 0 \<and> DEQUE_FREE no_nodes = Inr no_nodes \<and>
   well_formed two_nodes \<and>
   returns (DEQUE_FREE two_nodes) (\<lambda>s'. deque s' = DEQUE_DEFAULT \<and> DEQUE_FREE s' = Inr s')"
proof -
  have i: "invariant1 (deque no_nodes) \<and> DEQUE_SIZE no_nodes = 0"
    by (simp add: no_nodes_def DEQUE_DEFAULT_def invariant1_def)
  with destroy_idempotent [of no_nodes] destroy_idempotent [of two_nodes] well_formed_two_nodes
  show ?thesis
    by simp
qed

subsection \<open>C9: \<^verbatim>\<open>DEQUE_PUSH\<close> on a non-empty deque\<close>

text \<open>
  C9. On a deque whose \<^verbatim>\<open>first\<close> is not \<^verbatim>\<open>NULL\<close>, \<^verbatim>\<open>DEQUE_PUSH\<close> makes the old \<^verbatim>\<open>first\<close> the
  successor of the new node and the new node the new \<^verbatim>\<open>first\<close>; \<^verbatim>\<open>last\<close> keeps its value and
  \<^verbatim>\<open>size\<close> grows by one.
\<close>

theorem push_front_nonempty:
  "DEQUE_FIRST s \<noteq> None \<Longrightarrow>
     DEQUE_PUSH s (Some (a, junk)) v =
       Inr \<lparr>heap = fmupd a \<lparr>data = v, next = DEQUE_FIRST s\<rparr> (heap s),
            deque = \<lparr>first = Some a, last' = DEQUE_LAST s, size' = DEQUE_SIZE s + 1\<rparr>\<rparr>"
  by (auto simp add: DEQUE_PUSH_Some)

theorem push_front_nonempty_witness:
  "DEQUE_FIRST two_nodes \<noteq> None \<and>
   DEQUE_PUSH two_nodes (Some (3, \<lparr>data = 99, next = Some 7\<rparr>)) 5 =
     Inr \<lparr>heap = fmupd 3 \<lparr>data = 5, next = Some 1\<rparr> (heap two_nodes),
          deque = \<lparr>first = Some 3, last' = Some 2, size' = 3\<rparr>\<rparr>"
proof -
  have f: "DEQUE_FIRST two_nodes \<noteq> None"
    by (simp add: two_nodes_def)
  from push_front_nonempty [OF f, of 3 "\<lparr>data = 99, next = Some 7\<rparr>" 5] f show ?thesis
    by (simp add: two_nodes_def)
qed

subsection \<open>C10: what the node macros do to the \<^verbatim>\<open>next\<close> of the node they are given\<close>

text \<open>
  C10, as the code has it. Given an allocated node, whatever its \<^verbatim>\<open>next\<close> was:
  \<^verbatim>\<open>DEQUE_APPEND_NODE\<close> on a well-formed deque whose \<^verbatim>\<open>last\<close> is not that node comes back with
  the node as \<^verbatim>\<open>last\<close> and with \<^verbatim>\<open>NULL\<close> as the node's \<^verbatim>\<open>next\<close>; \<^verbatim>\<open>DEQUE_PUSH_NODE\<close> comes back with
  the node as \<^verbatim>\<open>first\<close> and with the old \<^verbatim>\<open>first\<close> as the node's \<^verbatim>\<open>next\<close>.
\<close>

theorem node_macros_overwrite_next:
  assumes "fmlookup (heap s) a = Some m"
  shows "(well_formed s \<and> DEQUE_LAST s \<noteq> Some a \<longrightarrow>
            returns (DEQUE_APPEND_NODE s (Some a))
              (\<lambda>s'. DEQUE_LAST s' = Some a \<and> fmlookup (heap s') a = Some (m\<lparr>next := None\<rparr>))) \<and>
         returns (DEQUE_PUSH_NODE s (Some a))
           (\<lambda>s'. DEQUE_FIRST s' = Some a \<and>
                  fmlookup (heap s') a = Some (m\<lparr>next := DEQUE_FIRST s\<rparr>))"
proof -
  have "returns (DEQUE_APPEND_NODE s (Some a))
          (\<lambda>s'. DEQUE_LAST s' = Some a \<and> fmlookup (heap s') a = Some (m\<lparr>next := None\<rparr>))"
    if wf: "well_formed s" and ne: "DEQUE_LAST s \<noteq> Some a"
  proof -
    from wf obtain as where c: "chain (heap s) (DEQUE_FIRST s) as"
      and e: "DEQUE_LAST s = (if as = [] then None else Some (last as))"
      by (rule well_formedE)
    show ?thesis
    proof (cases "as = []")
      case True
      with c have "DEQUE_FIRST s = None" by simp
      with assms show ?thesis
        by (simp add: DEQUE_APPEND_NODE_empty returns_def)
    next
      case False
      with c have f: "DEQUE_FIRST s \<noteq> None"
        by (cases as) auto
      from False e have l: "DEQUE_LAST s = Some (last as)" by simp
      from False have "last as \<in> set as" by simp
      with c obtain n where n: "fmlookup (heap s) (last as) = Some n"
        using chain_allocated fmlookup_dom_iff by metis
      from l ne have "last as \<noteq> a" by auto
      with assms f l n show ?thesis
        by (simp add: DEQUE_APPEND_NODE_nonempty returns_def)
    qed
  qed
  with assms show ?thesis
    by (simp add: DEQUE_PUSH_NODE_Some returns_def)
qed

text \<open>Node 3 points at node 1 before either call, and is not part of the two-node deque.\<close>

theorem node_macros_overwrite_next_witness:
  "fmlookup (heap spare_node) 3 = Some \<lparr>data = 30, next = Some 1\<rparr> \<and>
   well_formed spare_node \<and> DEQUE_LAST spare_node \<noteq> Some 3 \<and>
   returns (DEQUE_APPEND_NODE spare_node (Some 3))
     (\<lambda>s'. DEQUE_LAST s' = Some 3 \<and> fmlookup (heap s') 3 = Some \<lparr>data = 30, next = None\<rparr>) \<and>
   returns (DEQUE_PUSH_NODE spare_node (Some 3))
     (\<lambda>s'. DEQUE_FIRST s' = Some 3 \<and> fmlookup (heap s') 3 = Some \<lparr>data = 30, next = Some 1\<rparr>)"
proof -
  have m: "fmlookup (heap spare_node) 3 = Some \<lparr>data = 30, next = Some 1\<rparr>"
    and l: "DEQUE_LAST spare_node \<noteq> Some 3" and f: "DEQUE_FIRST spare_node = Some 1"
    by (simp_all add: spare_node_def)
  from node_macros_overwrite_next [OF m] well_formed_spare_node m l f show ?thesis
    by simp
qed

text \<open>
  The claim holds for every allocated node. When the node is the one \<^verbatim>\<open>last\<close> already points
  to, the \<^verbatim>\<open>else\<close> branch stores the node in its own \<^verbatim>\<open>next\<close> after the condition has stored
  \<^verbatim>\<open>NULL\<close> there: the node ends as its own successor and does not end the chain.
\<close>

theorem append_last_node_again_counterexample:
  "DEQUE_APPEND_NODE one_node (Some 1) =
     Inr \<lparr>heap = fmupd 1 \<lparr>data = 10, next = Some 1\<rparr> fmempty,
          deque = \<lparr>first = Some 1, last' = Some 1, size' = 2\<rparr>\<rparr> \<and>
   NODE_NEXT (fmupd 1 \<lparr>data = 10 :: int, next = Some 1\<rparr> fmempty) (Some 1) \<noteq> Inr None"
  by (simp add: one_node_def DEQUE_APPEND_NODE_def NODE_NEXT_assign_def NODE_NEXT_def fmupd_idem)

end
